theory Spec2Isabelle
  imports Complex_Main "HOL-Library.Multiset"
begin

section \<open>Subscription lifecycle (server/src/services/subscriptionService.ts)\<close>

text \<open>
  A JavaScript \<open>Date\<close> is its epoch value in milliseconds. The collection of subscription
  documents is a list in natural (insertion) order; the position of a document in the list
  plays the role of its \<open>_id\<close>. The clock (\<open>new Date()\<close>) is the parameter \<open>now\<close>, and
  \<open>addMonths\<close> of the date-fns package, which is not part of the repository, is a
  parameter of the operations that call it. The amount of a payment is a number that is
  stored and never calculated with; it is a real number here. The record follows the
  interface \<open>ISubscription\<close>; the fields \<open>type\<close> and \<open>status\<close> of the source are
  \<open>subType\<close> and \<open>subStatus\<close> here, and the \<open>status\<close> of a payment is \<open>payStatus\<close>.
\<close>

type_synonym Date = int

datatype SubscriptionType = Seller | Buyer

datatype SubscriptionStatus = Active | Inactive | Trial

datatype PaymentStatus = Success | Failed | Pending

record Payment =
  amount :: real
  date :: Date
  transactionId :: string
  payStatus :: PaymentStatus

record ISubscription =
  userId :: string
  subType :: SubscriptionType
  subStatus :: SubscriptionStatus
  startDate :: Date
  endDate :: Date
  isTrial :: bool
  trialEndDate :: "Date option"
  paymentHistory :: "Payment list"
  autoRenew :: bool
  lastPaymentDate :: "Date option"
  nextPaymentDate :: "Date option"


text \<open>
  \<open>Model.findOne(filter)\<close>: the first document of the collection that satisfies the
  filter, with its position, or nothing.
\<close>

fun findOne :: "('a \<Rightarrow> bool) \<Rightarrow> 'a list \<Rightarrow> (nat \<times> 'a) option" where
  "findOne q [] = None"
| "findOne q (d # ds) =
     (if q d then Some (0, d)
      else (case findOne q ds of None \<Rightarrow> None | Some (i, x) \<Rightarrow> Some (Suc i, x)))"


definition createSubscription ::
  "(Date \<Rightarrow> int \<Rightarrow> Date) \<Rightarrow> Date \<Rightarrow> string \<Rightarrow> SubscriptionType \<Rightarrow> ISubscription list
     \<Rightarrow> ISubscription \<times> ISubscription list" where
  "createSubscription addMonths now uid ty db =
     (let startDate' = now;
          endDate' = addMonths startDate' 3;
          trialEndDate' = endDate';
          doc = \<lparr>userId = uid, subType = ty, subStatus = Trial, startDate = startDate',
                 endDate = endDate', isTrial = True, trialEndDate = Some trialEndDate',
                 paymentHistory = [], autoRenew = True,
                 lastPaymentDate = None, nextPaymentDate = None\<rparr>
      in (doc, db @ [doc]))"

definition isSubscriptionActive ::
  "Date \<Rightarrow> string \<Rightarrow> SubscriptionType \<Rightarrow> ISubscription list \<Rightarrow> bool" where
  "isSubscriptionActive now uid ty db =
     (case findOne (\<lambda>d. userId d = uid \<and> subType d = ty
                       \<and> (subStatus d = Active \<or> subStatus d = Trial)
                       \<and> now < endDate d) db of
        None \<Rightarrow> False
      | Some _ \<Rightarrow> True)"




text \<open>
  \<open>Subscription.updateMany(filter, {status: "inactive"})\<close>: every document that satisfies
  the filter gets the new status.
\<close>

definition updateSubscriptionStatus :: "Date \<Rightarrow> ISubscription list \<Rightarrow> ISubscription list" where
  "updateSubscriptionStatus now db =
     map (\<lambda>d. if endDate d < now \<and> (subStatus d = Active \<or> subStatus d = Trial)
               then d\<lparr>subStatus := Inactive\<rparr> else d) db"

subsection \<open>The handler of POST /renew (server/src/routes/subscription.ts)\<close>







section \<open>Numbers of JavaScript\<close>

text \<open>
  The numbers of geolocation.ts are IEEE 754 doubles. A number is a finite double, given by
  its real value, or NaN, or one of the two infinities. The two zeros are one value here:
  the functions modelled never divide by a computed zero, which alone tells them apart.
\<close>

datatype number = Num real | NaN | Infinity | MinusInfinity

text \<open>
  The rounding of every operation (round to nearest, ties to the even significand):
  \<open>binary64 x\<close> is the double nearest to the real \<open>x\<close>. A double has 53 significant bits,
  so doubles with the binary exponent \<open>e\<close> are the multiples of \<open>2 powi (e - 52)\<close>; below the
  normal range they are the multiples of \<open>2 powi (- 1074)\<close>; what rounds to \<open>2 ^ 1024\<close> or
  beyond is an infinity.
\<close>

definition round_half_even :: "real \<Rightarrow> int" where
  "round_half_even y =
     (let f = \<lfloor>y\<rfloor>
      in if y - of_int f < 1 / 2 then f
         else if 1 / 2 < y - of_int f then f + 1
         else if even f then f else f + 1)"

definition binary64 :: "real \<Rightarrow> number" where
  "binary64 x =
     (if x = 0 then Num 0
      else (let e = \<lfloor>log 2 \<bar>x\<bar>\<rfloor>;
                q = max (e - 52) (- 1074);
                y = of_int (round_half_even (x / 2 powi q)) * 2 powi q
            in if 2 ^ 1024 \<le> \<bar>y\<bar> then (if 0 < x then Infinity else MinusInfinity)
               else Num y))"

text \<open>
  The operators \<open>-\<close> (unary), \<open>+\<close>, \<open>-\<close>, \<open>*\<close>, \<open>/\<close>, \<open><\<close> and \<open><=\<close> on numbers: the exact
  result, rounded; NaN where IEEE 754 gives NaN; a comparison with NaN is false.
\<close>

fun js_neg :: "number \<Rightarrow> number" where
  "js_neg (Num x) = Num (- x)"
| "js_neg NaN = NaN"
| "js_neg Infinity = MinusInfinity"
| "js_neg MinusInfinity = Infinity"

fun js_add :: "number \<Rightarrow> number \<Rightarrow> number" where
  "js_add (Num x) (Num y) = binary64 (x + y)"
| "js_add NaN b = NaN"
| "js_add a NaN = NaN"
| "js_add Infinity MinusInfinity = NaN"
| "js_add MinusInfinity Infinity = NaN"
| "js_add Infinity b = Infinity"
| "js_add a Infinity = Infinity"
| "js_add MinusInfinity b = MinusInfinity"
| "js_add a MinusInfinity = MinusInfinity"

definition js_sub :: "number \<Rightarrow> number \<Rightarrow> number" where
  "js_sub a b = js_add a (js_neg b)"

fun js_mul :: "number \<Rightarrow> number \<Rightarrow> number" where
  "js_mul (Num x) (Num y) = binary64 (x * y)"
| "js_mul NaN b = NaN"
| "js_mul a NaN = NaN"
| "js_mul Infinity (Num y) = (if y = 0 then NaN else if 0 < y then Infinity else MinusInfinity)"
| "js_mul MinusInfinity (Num y) =
     (if y = 0 then NaN else if 0 < y then MinusInfinity else Infinity)"
| "js_mul (Num x) Infinity = (if x = 0 then NaN else if 0 < x then Infinity else MinusInfinity)"
| "js_mul (Num x) MinusInfinity =
     (if x = 0 then NaN else if 0 < x then MinusInfinity else Infinity)"
| "js_mul Infinity Infinity = Infinity"
| "js_mul Infinity MinusInfinity = MinusInfinity"
| "js_mul MinusInfinity Infinity = MinusInfinity"
| "js_mul MinusInfinity MinusInfinity = Infinity"

fun js_div :: "number \<Rightarrow> number \<Rightarrow> number" where
  "js_div (Num x) (Num y) =
     (if y = 0 then (if x = 0 then NaN else if 0 < x then Infinity else MinusInfinity)
      else binary64 (x / y))"
| "js_div NaN b = NaN"
| "js_div a NaN = NaN"
| "js_div (Num x) Infinity = Num 0"
| "js_div (Num x) MinusInfinity = Num 0"
| "js_div Infinity (Num y) = (if 0 \<le> y then Infinity else MinusInfinity)"
| "js_div MinusInfinity (Num y) = (if 0 \<le> y then MinusInfinity else Infinity)"
| "js_div Infinity b = NaN"
| "js_div MinusInfinity b = NaN"

fun js_less :: "number \<Rightarrow> number \<Rightarrow> bool" where
  "js_less (Num x) (Num y) = (x < y)"
| "js_less NaN b = False"
| "js_less a NaN = False"
| "js_less Infinity b = False"
| "js_less a MinusInfinity = False"
| "js_less a Infinity = True"
| "js_less MinusInfinity b = True"

fun js_le :: "number \<Rightarrow> number \<Rightarrow> bool" where
  "js_le (Num x) (Num y) = (x \<le> y)"
| "js_le NaN b = False"
| "js_le a NaN = False"
| "js_le MinusInfinity b = True"
| "js_le a Infinity = True"
| "js_le Infinity b = False"
| "js_le a MinusInfinity = False"

text \<open>
  \<open>Math.PI\<close> is the double nearest to pi. \<open>Math.sqrt\<close> is correctly rounded. \<open>Math.round\<close>
  gives the nearest integer, a half upwards; it does not round in the sense of \<open>binary64\<close>,
  as the integer nearest to a double is a double.
\<close>

definition Math_PI :: number where
  "Math_PI = Num (884279719003555 / 2 ^ 48)"

fun Math_sqrt :: "number \<Rightarrow> number" where
  "Math_sqrt (Num x) = (if x < 0 then NaN else binary64 (sqrt x))"
| "Math_sqrt NaN = NaN"
| "Math_sqrt Infinity = Infinity"
| "Math_sqrt MinusInfinity = NaN"

fun Math_round :: "number \<Rightarrow> number" where
  "Math_round (Num x) = Num (of_int \<lfloor>x + 1 / 2\<rfloor>)"
| "Math_round a = a"

text \<open>
  ECMAScript leaves the values of \<open>Math.sin\<close>, \<open>Math.cos\<close> and \<open>Math.atan2\<close> to the
  implementation (they are approximations of the library of the engine), so they are a
  parameter of the model: a record \<open>libm\<close> of the three functions at finite arguments
  (\<open>atan2\<close> also at the infinities). What does not depend on the library is written out:
  the result is NaN for an argument NaN and, for \<open>Math.sin\<close> and \<open>Math.cos\<close>, for an
  infinity; \<open>Math.sin\<close> of 0 is 0; \<open>Math.atan2\<close> of 0 and a positive number is 0; a sine or
  cosine lies between -1 and 1.
\<close>

record libm =
  libm_sin :: "real \<Rightarrow> real"
  libm_cos :: "real \<Rightarrow> real"
  libm_atan2 :: "number \<Rightarrow> number \<Rightarrow> real"

fun Math_sin :: "libm \<Rightarrow> number \<Rightarrow> number" where
  "Math_sin L (Num x) = (if x = 0 then Num 0 else Num (max (- 1) (min 1 (libm_sin L x))))"
| "Math_sin L a = NaN"

fun Math_cos :: "libm \<Rightarrow> number \<Rightarrow> number" where
  "Math_cos L (Num x) = Num (max (- 1) (min 1 (libm_cos L x)))"
| "Math_cos L a = NaN"

definition Math_atan2 :: "libm \<Rightarrow> number \<Rightarrow> number \<Rightarrow> number" where
  "Math_atan2 L y x =
     (if y = NaN \<or> x = NaN then NaN
      else if y = Num 0 \<and> js_less (Num 0) x then Num 0
      else Num (libm_atan2 L y x))"

section \<open>Geolocation utilities (server/src/utils/geolocation.ts)\<close>

text \<open>
  The functions of geolocation.ts, operation by operation in the order in which JavaScript
  evaluates them (\<open>a * b * c\<close> is \<open>(a * b) * c\<close>), each with its rounding.
\<close>

definition toRad :: "number \<Rightarrow> number" where
  "toRad degrees = js_mul degrees (js_div Math_PI (Num 180))"

definition calculateDistance :: "libm \<Rightarrow> number \<Rightarrow> number \<Rightarrow> number \<Rightarrow> number \<Rightarrow> number" where
  "calculateDistance L lat1 lon1 lat2 lon2 =
     (let R = Num 6371;
          dLat = toRad (js_sub lat2 lat1);
          dLon = toRad (js_sub lon2 lon1);
          a = js_add
                (js_mul (Math_sin L (js_div dLat (Num 2))) (Math_sin L (js_div dLat (Num 2))))
                (js_mul
                  (js_mul
                    (js_mul (Math_cos L (toRad lat1)) (Math_cos L (toRad lat2)))
                    (Math_sin L (js_div dLon (Num 2))))
                  (Math_sin L (js_div dLon (Num 2))));
          c = js_mul (Num 2) (Math_atan2 L (Math_sqrt a) (Math_sqrt (js_sub (Num 1) a)))
      in js_mul R c)"

definition isWithinRadius ::
  "libm \<Rightarrow> number \<Rightarrow> number \<Rightarrow> number \<Rightarrow> number \<Rightarrow> number \<Rightarrow> bool" where
  "isWithinRadius L pointLat pointLon centerLat centerLon radius =
     js_le (calculateDistance L pointLat pointLon centerLat centerLon) radius"

text \<open>The third argument is optional in the source; when it is absent the base cost is 50.\<close>

definition calculateDeliveryCost :: "number \<Rightarrow> number \<Rightarrow> number option \<Rightarrow> number" where
  "calculateDeliveryCost distance freeDeliveryRadius baseDeliveryCost_arg =
     (let baseDeliveryCost = (case baseDeliveryCost_arg of None \<Rightarrow> Num 50 | Some b \<Rightarrow> b)
      in if js_le distance freeDeliveryRadius then Num 0
         else js_add baseDeliveryCost
                (Math_round (js_mul (js_sub distance freeDeliveryRadius) (Num 5))))"

record Coordinates =
  latitude :: number
  longitude :: number

text \<open>
  The inner loop of \<open>calculateOptimalRoute\<close>: \<open>i\<close> runs over the unvisited points, the
  list argument is what is left of them from position \<open>i\<close> on, and \<open>minDistance\<close> starts
  as \<open>Infinity\<close>.
\<close>

fun nearest_scan ::
  "libm \<Rightarrow> Coordinates \<Rightarrow> Coordinates list \<Rightarrow> nat \<Rightarrow> nat \<Rightarrow> number \<Rightarrow> nat" where
  "nearest_scan L current [] i nearestIndex minDistance = nearestIndex"
| "nearest_scan L current (p # ps) i nearestIndex minDistance =
     (let distance = calculateDistance L (latitude current) (longitude current)
                       (latitude p) (longitude p)
      in if js_less distance minDistance
         then nearest_scan L current ps (Suc i) i distance
         else nearest_scan L current ps (Suc i) nearestIndex minDistance)"

text \<open>\<open>xs.splice(n, 1)\<close>: the list without its element at position \<open>n\<close>.\<close>

definition splice1 :: "nat \<Rightarrow> 'a list \<Rightarrow> 'a list" where
  "splice1 n xs = take n xs @ drop (Suc n) xs"

text \<open>
  The outer loop. It ends because the scan of a non-empty list returns a position of the
  list, so that each round removes one unvisited point.
\<close>

function route_loop ::
  "libm \<Rightarrow> Coordinates \<Rightarrow> Coordinates list \<Rightarrow> Coordinates list \<Rightarrow> Coordinates list" where
  "route_loop L current unvisited route =
     (if 0 < length unvisited
      then (let nearestIndex = nearest_scan L current unvisited 0 0 Infinity;
                current' = unvisited ! nearestIndex
            in route_loop L current' (splice1 nearestIndex unvisited) (route @ [current']))
      else route)"
  by pat_completeness auto
termination
proof (relation "measure (\<lambda>(L, current, unvisited, route). length unvisited)")
  show "wf (measure (\<lambda>(L, current, unvisited, route). length unvisited))" by simp
next
  fix L :: libm and current :: Coordinates and unvisited route :: "Coordinates list" and x xa
  assume ne: "0 < length unvisited" and x: "x = nearest_scan L current unvisited 0 0 Infinity"
  have range: "nearest_scan L c ps i n m = n
      \<or> (i \<le> nearest_scan L c ps i n m \<and> nearest_scan L c ps i n m < i + length ps)"
    for c ps i n m
  proof (induction ps arbitrary: i n m)
    case Nil
    show ?case by simp
  next
    case (Cons p ps)
    let ?d = "calculateDistance L (latitude c) (longitude c) (latitude p) (longitude p)"
    from Cons [of "Suc i" i ?d] Cons [of "Suc i" n m] show ?case
      by (auto simp: Let_def)
  qed
  from range [of current unvisited 0 0 Infinity] ne
  have "x < length unvisited" unfolding x by auto
  then show "((L, xa, splice1 x unvisited, route @ [xa]), (L, current, unvisited, route))
      \<in> measure (\<lambda>(L, current, unvisited, route). length unvisited)"
    by (simp add: splice1_def)
qed


definition calculateOptimalRoute :: "libm \<Rightarrow> Coordinates list \<Rightarrow> Coordinates list" where
  "calculateOptimalRoute L points =
     (if length points \<le> 2 then points
      else (let unvisited = points;
                current = hd unvisited;
                unvisited' = tl unvisited
            in route_loop L current unvisited' [current]))"

text \<open>
  \<open>route.length - 1\<close> is an integer subtraction: for the empty route it is -1 and the
  loop body does not run.
\<close>

function calculateRouteDistance_loop ::
  "libm \<Rightarrow> Coordinates list \<Rightarrow> nat \<Rightarrow> number \<Rightarrow> number" where
  "calculateRouteDistance_loop L route i totalDistance =
     (if int i < int (length route) - 1
      then calculateRouteDistance_loop L route (Suc i)
             (js_add totalDistance
                (calculateDistance L (latitude (route ! i)) (longitude (route ! i))
                   (latitude (route ! Suc i)) (longitude (route ! Suc i))))
      else totalDistance)"
  by pat_completeness auto
termination
  by (relation "measure (\<lambda>(L, route, i, totalDistance). length route - i)") auto

definition calculateRouteDistance :: "libm \<Rightarrow> Coordinates list \<Rightarrow> number" where
  "calculateRouteDistance L route = calculateRouteDistance_loop L route 0 (Num 0)"

section \<open>Seller reviews (server/src/services/LocalSellerService.ts)\<close>






section \<open>Specification-side and auxiliary definitions\<close>

text \<open>
  The invariant of a geographic point in the specification: a latitude between -90 and 90
  and a longitude between -180 and 180.
\<close>

definition validCoordinates :: "number \<Rightarrow> number \<Rightarrow> bool" where
  "validCoordinates lat lon =
     (js_le (Num (- 90)) lat \<and> js_le lat (Num 90)
      \<and> js_le (Num (- 180)) lon \<and> js_le lon (Num 180))"

text \<open>The operator \<open>==\<close> on numbers: NaN equals nothing, not even itself.\<close>

fun js_eq :: "number \<Rightarrow> number \<Rightarrow> bool" where
  "js_eq (Num x) (Num y) = (x = y)"
| "js_eq NaN b = False"
| "js_eq a NaN = False"
| "js_eq Infinity Infinity = True"
| "js_eq MinusInfinity MinusInfinity = True"
| "js_eq a b = False"

abbreviation distanceBetween :: "libm \<Rightarrow> Coordinates \<Rightarrow> Coordinates \<Rightarrow> number" where
  "distanceBetween L p q \<equiv>
     calculateDistance L (latitude p) (longitude p) (latitude q) (longitude q)"

text \<open>
  "Closer" between two distances as \<open>calculateDistance\<close> returns them. A distance that is
  NaN is no distance: it counts like \<open>Infinity\<close>, closer than nothing. Where neither
  distance is NaN, \<open>nearer\<close> is the operator \<open><\<close>.
\<close>

fun nan_as_infinity :: "number \<Rightarrow> number" where
  "nan_as_infinity NaN = Infinity"
| "nan_as_infinity a = a"

definition nearer :: "number \<Rightarrow> number \<Rightarrow> bool" where
  "nearer a b = js_less (nan_as_infinity a) (nan_as_infinity b)"

text \<open>
  The nearest-neighbour order in the words of the specification, on positions of the
  input list: \<open>nearest_first L ps c U order\<close> says that \<open>order\<close> visits positions of the
  set \<open>U\<close> of positions not yet visited, starting from position \<open>c\<close>, such that each
  position visited is one whose point is closest to the point visited before it among
  those not yet visited (none of them is nearer), and the lowest such position where
  distances tie (neither is nearer than the other).
\<close>

fun nearest_first :: "libm \<Rightarrow> Coordinates list \<Rightarrow> nat \<Rightarrow> nat set \<Rightarrow> nat list \<Rightarrow> bool" where
  "nearest_first L ps c U [] = True"
| "nearest_first L ps c U (x # xs) =
     (x \<in> U
      \<and> (\<forall>j \<in> U. \<not> nearer (distanceBetween L (ps ! c) (ps ! j))
                        (distanceBetween L (ps ! c) (ps ! x))
                 \<and> (\<not> nearer (distanceBetween L (ps ! c) (ps ! x))
                           (distanceBetween L (ps ! c) (ps ! j))
                      \<longrightarrow> x \<le> j))
      \<and> nearest_first L ps x (U - {x}) xs)"

text \<open>
  The outer loop of \<open>calculateOptimalRoute\<close> once more, on positions of the input list
  instead of points: \<open>u\<close> holds the positions not yet visited. It is used in the proofs
  only, to name the position each point of the route comes from.
\<close>

function nn_order :: "libm \<Rightarrow> Coordinates list \<Rightarrow> nat \<Rightarrow> nat list \<Rightarrow> nat list" where
  "nn_order L ps c u =
     (if u = [] then []
      else (let n = nearest_scan L (ps ! c) (map ((!) ps) u) 0 0 Infinity;
                c' = u ! n
            in c' # nn_order L ps c' (splice1 n u)))"
  by pat_completeness auto
termination
proof (relation "measure (\<lambda>(L, ps, c, u). length u)")
  show "wf (measure (\<lambda>(L, ps, c, u). length u))" by simp
next
  fix L :: libm and ps :: "Coordinates list" and c :: nat and u :: "nat list" and x xa
  assume ne: "u \<noteq> []" and x: "x = nearest_scan L (ps ! c) (map ((!) ps) u) 0 0 Infinity"
  have range: "nearest_scan L c ps i n m = n
      \<or> (i \<le> nearest_scan L c ps i n m \<and> nearest_scan L c ps i n m < i + length ps)"
    for c ps i n m
  proof (induction ps arbitrary: i n m)
    case Nil
    show ?case by simp
  next
    case (Cons p ps)
    let ?d = "calculateDistance L (latitude c) (longitude c) (latitude p) (longitude p)"
    from Cons [of "Suc i" i ?d] Cons [of "Suc i" n m] show ?case
      by (auto simp: Let_def)
  qed
  from range [of "ps ! c" "map ((!) ps) u" 0 0 Infinity] ne
  have "x < length u" unfolding x by auto
  then show "((L, ps, xa, splice1 x u), (L, ps, c, u)) \<in> measure (\<lambda>(L, ps, c, u). length u)"
    by (simp add: splice1_def)
qed



subsection \<open>Example data\<close>


text \<open>An example document: a trial of user \<open>u1\<close> that ends at time 1000.\<close>

definition example_trial :: ISubscription where
  "example_trial =
     \<lparr>userId = ''u1'', subType = Seller, subStatus = Trial, startDate = 0, endDate = 1000,
      isTrial = True, trialEndDate = Some 1000, paymentHistory = [], autoRenew = True,
      lastPaymentDate = None, nextPaymentDate = None\<rparr>"

text \<open>Two more example documents: a paid subscription that ends at 3000, and a lapsed one.\<close>

definition example_paid :: ISubscription where
  "example_paid =
     \<lparr>userId = ''u2'', subType = Buyer, subStatus = Active, startDate = 0, endDate = 3000,
      isTrial = False, trialEndDate = None,
      paymentHistory = [\<lparr>amount = 10, date = 400, transactionId = ''t0'', payStatus = Success\<rparr>],
      autoRenew = True, lastPaymentDate = Some 400, nextPaymentDate = Some 3000\<rparr>"

definition example_lapsed :: ISubscription where
  "example_lapsed =
     \<lparr>userId = ''u3'', subType = Buyer, subStatus = Inactive, startDate = 0, endDate = 100,
      isTrial = False, trialEndDate = None, paymentHistory = [], autoRenew = False,
      lastPaymentDate = None, nextPaymentDate = None\<rparr>"

text \<open>
  Example points: two points a quarter of a great circle apart, and a point whose latitude
  is NaN, so that every distance to it is NaN.
\<close>

definition origin :: Coordinates where
  "origin = \<lparr>latitude = Num 0, longitude = Num 0\<rparr>"

definition north_pole :: Coordinates where
  "north_pole = \<lparr>latitude = Num 90, longitude = Num 0\<rparr>"

definition missing_point :: Coordinates where
  "missing_point = \<lparr>latitude = NaN, longitude = Num 0\<rparr>"

text \<open>
  An example library, used to evaluate examples only. At the four arguments at which
  \<open>calculateDistance\<close> calls \<open>Math.sin\<close> and \<open>Math.cos\<close> for the points (-82, -180) and
  (82, 0) it has the values that fdlibm (the library of V8) and the GNU C library return
  there; elsewhere it is constant.
\<close>

definition example_libm :: libm where
  "example_libm =
     \<lparr>libm_sin = (\<lambda>x. if x = 6445416618514801 / 2 ^ 52 then 4459770905381437 / 2 ^ 52
                       else if x = 884279719003555 / 2 ^ 49 then 1 else 0),
      libm_cos = (\<lambda>x. if \<bar>x\<bar> = 6445416618514801 / 2 ^ 52 then 2507119702494989 / 2 ^ 54
                       else 1),
      libm_atan2 = (\<lambda>y x. 0)\<rparr>"



declare route_loop.simps [simp del] nn_order.simps [simp del]
  calculateRouteDistance_loop.simps [simp del]

section \<open>Properties of the subscription lifecycle\<close>

lemma findOne_None: "findOne q db = None \<longleftrightarrow> (\<forall>d \<in> set db. \<not> q d)"
  by (induction db) (auto split: option.splits)

lemma findOne_Some:
  "findOne q db = Some (i, d) \<Longrightarrow> i < length db \<and> db ! i = d \<and> q d \<and> (\<forall>j<i. \<not> q (db ! j))"
proof (induction db arbitrary: i)
  case Nil
  then show ?case by simp
next
  case (Cons x xs)
  show ?case
  proof (cases "q x")
    case True
    with Cons.prems show ?thesis by simp
  next
    case False
    with Cons.prems obtain k where k: "findOne q xs = Some (k, d)" and i: "i = Suc k"
      by (auto split: option.splits)
    from Cons.IH [OF k] have ih: "k < length xs" "xs ! k = d" "q d" "\<forall>j<k. \<not> q (xs ! j)"
      by simp_all
    have "\<forall>j<Suc k. \<not> q ((x # xs) ! j)"
    proof (intro allI impI)
      fix j assume "j < Suc k"
      then show "\<not> q ((x # xs) ! j)"
        using False ih(4) by (cases j) simp_all
    qed
    with ih i show ?thesis by simp
  qed
qed



lemma isSubscriptionActive_set:
  "isSubscriptionActive now uid ty db \<longleftrightarrow>
     (\<exists>d \<in> set db. userId d = uid \<and> subType d = ty
        \<and> (subStatus d = Active \<or> subStatus d = Trial) \<and> now < endDate d)"
proof (cases "findOne (\<lambda>d. userId d = uid \<and> subType d = ty
                 \<and> (subStatus d = Active \<or> subStatus d = Trial) \<and> now < endDate d) db")
  case None
  then show ?thesis
    unfolding isSubscriptionActive_def using findOne_None [THEN iffD1, OF None] by simp
next
  case (Some r)
  obtain i d where r: "r = (i, d)" by (cases r)
  from findOne_Some [OF Some [unfolded r]] have "d \<in> set db"
    and "userId d = uid \<and> subType d = ty
        \<and> (subStatus d = Active \<or> subStatus d = Trial) \<and> now < endDate d"
    by auto
  then show ?thesis
    unfolding isSubscriptionActive_def using Some by auto
qed

text \<open>
  Claim C1. \<open>isSubscriptionActive\<close> answers true exactly when the collection holds a
  subscription of the user and type whose status is active or trial and whose end date is
  strictly later than the current time. In particular, when every subscription of the user
  and type has its end date at or before the current time, the answer is false whatever
  the stored status is: the answer does not wait for the expiry sweep.
\<close>

theorem isSubscriptionActive_iff:
  "(isSubscriptionActive now uid ty db \<longleftrightarrow>
      (\<exists>d \<in> set db. userId d = uid \<and> subType d = ty
         \<and> (subStatus d = Active \<or> subStatus d = Trial) \<and> now < endDate d))
   \<and> ((\<forall>d \<in> set db. userId d = uid \<and> subType d = ty \<longrightarrow> endDate d \<le> now)
        \<longrightarrow> \<not> isSubscriptionActive now uid ty db)"
  by (auto simp: isSubscriptionActive_set)

theorem isSubscriptionActive_iff_witness:
  "isSubscriptionActive 999 ''u1'' Seller [example_trial]
   \<and> subStatus example_trial = Trial \<and> endDate example_trial \<le> 1000
   \<and> \<not> isSubscriptionActive 1000 ''u1'' Seller [example_trial]
   \<and> \<not> isSubscriptionActive 999 ''u1'' Buyer [example_trial]"
proof -
  have a: "isSubscriptionActive 999 ''u1'' Seller [example_trial]"
    using isSubscriptionActive_iff [of 999 "''u1''" Seller "[example_trial]"]
    by (simp add: example_trial_def)
  have b: "\<not> isSubscriptionActive 1000 ''u1'' Seller [example_trial]"
    using isSubscriptionActive_iff [of 1000 "''u1''" Seller "[example_trial]"]
    by (simp add: example_trial_def)
  have c: "\<not> isSubscriptionActive 999 ''u1'' Buyer [example_trial]"
    using isSubscriptionActive_iff [of 999 "''u1''" Buyer "[example_trial]"]
    by (simp add: example_trial_def)
  from a b c show ?thesis by (simp add: example_trial_def)
qed




lemma sweep_twice:
  assumes "now \<le> now'"
  shows "updateSubscriptionStatus now' (updateSubscriptionStatus now db)
           = updateSubscriptionStatus now' db"
  using assms unfolding updateSubscriptionStatus_def by (induction db) auto

text \<open>
  Claim C7. The expiry sweep keeps the number and order of the documents; a document whose
  end date is before now and whose status is active or trial gets the status inactive and
  is otherwise unchanged, and every other document is unchanged. The sweep is idempotent:
  a second sweep at the same time changes nothing more, and a second sweep at a later time
  gives what one sweep at that later time gives.
\<close>

theorem updateSubscriptionStatus_spec:
  "length (updateSubscriptionStatus now db) = length db
   \<and> (\<forall>i<length db.
         updateSubscriptionStatus now db ! i =
           (if endDate (db ! i) < now \<and> (subStatus (db ! i) = Active \<or> subStatus (db ! i) = Trial)
            then (db ! i)\<lparr>subStatus := Inactive\<rparr> else db ! i))
   \<and> updateSubscriptionStatus now (updateSubscriptionStatus now db)
        = updateSubscriptionStatus now db
   \<and> (now \<le> now' \<longrightarrow>
         updateSubscriptionStatus now' (updateSubscriptionStatus now db)
           = updateSubscriptionStatus now' db)"
proof (intro conjI allI impI)
  show "length (updateSubscriptionStatus now db) = length db"
    by (simp add: updateSubscriptionStatus_def)
next
  fix i assume "i < length db"
  then show "updateSubscriptionStatus now db ! i =
           (if endDate (db ! i) < now \<and> (subStatus (db ! i) = Active \<or> subStatus (db ! i) = Trial)
            then (db ! i)\<lparr>subStatus := Inactive\<rparr> else db ! i)"
    by (simp add: updateSubscriptionStatus_def)
next
  show "updateSubscriptionStatus now (updateSubscriptionStatus now db)
        = updateSubscriptionStatus now db"
    by (rule sweep_twice) simp
next
  assume "now \<le> now'"
  then show "updateSubscriptionStatus now' (updateSubscriptionStatus now db)
           = updateSubscriptionStatus now' db"
    by (rule sweep_twice)
qed

theorem updateSubscriptionStatus_spec_witness:
  "updateSubscriptionStatus 2000 [example_trial, example_paid, example_lapsed]
     = [example_trial\<lparr>subStatus := Inactive\<rparr>, example_paid, example_lapsed]
   \<and> updateSubscriptionStatus 2000
        (updateSubscriptionStatus 2000 [example_trial, example_paid, example_lapsed])
     = [example_trial\<lparr>subStatus := Inactive\<rparr>, example_paid, example_lapsed]
   \<and> updateSubscriptionStatus 4000
        (updateSubscriptionStatus 2000 [example_trial, example_paid, example_lapsed])
     = updateSubscriptionStatus 4000 [example_trial, example_paid, example_lapsed]"
proof -
  let ?db = "[example_trial, example_paid, example_lapsed]"
  note t = updateSubscriptionStatus_spec [of 2000 ?db 4000]
  have len: "length (updateSubscriptionStatus 2000 ?db) = 3"
    using t by simp
  have n0: "updateSubscriptionStatus 2000 ?db ! 0 = example_trial\<lparr>subStatus := Inactive\<rparr>"
    using t by (simp add: example_trial_def)
  have n1: "updateSubscriptionStatus 2000 ?db ! 1 = example_paid"
    using t by (simp add: example_paid_def)
  have n2: "updateSubscriptionStatus 2000 ?db ! 2 = example_lapsed"
    using t by (simp add: example_lapsed_def)
  have a: "updateSubscriptionStatus 2000 ?db
             = [example_trial\<lparr>subStatus := Inactive\<rparr>, example_paid, example_lapsed]"
  proof (rule nth_equalityI)
    show "length (updateSubscriptionStatus 2000 ?db)
            = length [example_trial\<lparr>subStatus := Inactive\<rparr>, example_paid, example_lapsed]"
      using len by simp
  next
    fix i assume "i < length (updateSubscriptionStatus 2000 ?db)"
    then have "i = 0 \<or> i = 1 \<or> i = 2" using len by auto
    then show "updateSubscriptionStatus 2000 ?db ! i
                 = [example_trial\<lparr>subStatus := Inactive\<rparr>, example_paid, example_lapsed] ! i"
      using n0 n1 n2 by auto
  qed
  have b: "updateSubscriptionStatus 2000 (updateSubscriptionStatus 2000 ?db)
             = updateSubscriptionStatus 2000 ?db"
    using t by simp
  have c: "updateSubscriptionStatus 4000 (updateSubscriptionStatus 2000 ?db)
             = updateSubscriptionStatus 4000 ?db"
    using t by simp
  from a b c show ?thesis by simp
qed






section \<open>Properties of the geolocation utilities\<close>

subsection \<open>Rounding to a double\<close>

text \<open>
  The binary exponent of a number between two powers of two is known, which lets \<open>simp\<close>
  evaluate \<open>binary64\<close> at a given number; a non-negative number rounds to a non-negative
  one; a number below \<open>2 powi 1023\<close> in absolute value rounds to a finite one; and a
  multiple of a power of two with at most 53 bits is a double already.
\<close>

lemma binary64_zero: "binary64 0 = Num 0"
  by (simp add: binary64_def)

lemma floor_log2: 
  assumes "2 powi e \<le> \<bar>x\<bar>" and "\<bar>x\<bar> < 2 powi (e + 1)"
  shows "\<lfloor>log 2 \<bar>x\<bar>\<rfloor> = e"
proof -
  have pos: "0 < \<bar>x\<bar>" using assms(1) by (smt (verit) zero_less_power_int)
  have a: "(2::real) powr (of_int e) = 2 powi e" by (simp add: powr_real_of_int')
  have b: "(2::real) powr (of_int e + 1) = 2 powi (e + 1)"
    using powr_real_of_int' [of 2 "e + 1"] by simp
  show ?thesis
    using floor_log_eq_powr_iff [of "\<bar>x\<bar>" 2 e] pos assms a b by simp
qed

lemma binary64_normal:
  assumes "2 powi e \<le> \<bar>x\<bar>" and "\<bar>x\<bar> < 2 powi (e + 1)"
  shows "binary64 x =
     (let q = max (e - 52) (- 1074);
          y = of_int (round_half_even (x / 2 powi q)) * 2 powi q
      in if 2 ^ 1024 \<le> \<bar>y\<bar> then (if 0 < x then Infinity else MinusInfinity) else Num y)"
proof -
  have "x \<noteq> 0" using assms(1) by (smt (verit) zero_less_power_int abs_zero)
  then show ?thesis
    unfolding binary64_def floor_log2 [OF assms] by simp
qed

lemma round_half_even_int: "round_half_even (of_int k) = k"
  by (simp add: round_half_even_def)

lemma round_half_even_bounds:
  "of_int (round_half_even y) \<le> y + 1 / 2 \<and> y - 1 / 2 \<le> of_int (round_half_even y)"
  unfolding round_half_even_def Let_def by (auto; linarith)

lemma round_half_even_nonneg: "0 \<le> y \<Longrightarrow> 0 \<le> round_half_even y"
  unfolding round_half_even_def Let_def by auto

lemma binary64_nonneg:
  assumes "0 \<le> x"
  shows "binary64 x = Infinity \<or> (\<exists>y. 0 \<le> y \<and> binary64 x = Num y)"
proof (cases "x = 0")
  case True
  then show ?thesis by (simp add: binary64_def)
next
  case False
  with assms have pos: "0 < x" by simp
  define q where "q = max (\<lfloor>log 2 \<bar>x\<bar>\<rfloor> - 52) (- 1074)"
  define y where "y = of_int (round_half_even (x / 2 powi q)) * (2::real) powi q"
  have "0 \<le> x / 2 powi q" using pos by simp
  then have "0 \<le> round_half_even (x / 2 powi q)" by (rule round_half_even_nonneg)
  then have y0: "0 \<le> y" unfolding y_def by simp
  have "binary64 x = (if 2 ^ 1024 \<le> \<bar>y\<bar> then Infinity else Num y)"
    using pos False unfolding binary64_def q_def y_def Let_def by simp
  with y0 show ?thesis by auto
qed

lemma exponent_bounds:
  assumes "x \<noteq> 0"
  shows "2 powi \<lfloor>log 2 \<bar>x\<bar>\<rfloor> \<le> \<bar>x\<bar> \<and> \<bar>x\<bar> < 2 powi (\<lfloor>log 2 \<bar>x\<bar>\<rfloor> + 1)"
proof -
  define e where "e = \<lfloor>log 2 \<bar>x\<bar>\<rfloor>"
  have pos: "0 < \<bar>x\<bar>" using assms by simp
  have a: "(2::real) powr real_of_int e = 2 powi e"
    by (rule powr_real_of_int') simp_all
  have b: "(2::real) powr real_of_int (e + 1) = 2 powi (e + 1)"
    by (rule powr_real_of_int') simp_all
  have c: "\<lfloor>log 2 \<bar>x\<bar>\<rfloor> = e" by (simp add: e_def)
  have "2 powr real_of_int e \<le> \<bar>x\<bar> \<and> \<bar>x\<bar> < 2 powr real_of_int (e + 1)"
    using iffD1 [OF floor_log_eq_powr_iff [of "\<bar>x\<bar>" 2 e] c] pos by simp
  then have "2 powi e \<le> \<bar>x\<bar> \<and> \<bar>x\<bar> < 2 powi (e + 1)"
    unfolding a b .
  then show ?thesis unfolding e_def .
qed

lemma exponent_less:
  assumes "x \<noteq> 0" and "\<bar>x\<bar> < 2 powi n"
  shows "\<lfloor>log 2 \<bar>x\<bar>\<rfloor> < n"
proof (rule ccontr)
  assume "\<not> \<lfloor>log 2 \<bar>x\<bar>\<rfloor> < n"
  then have "n \<le> \<lfloor>log 2 \<bar>x\<bar>\<rfloor>" by simp
  then have "(2::real) powi n \<le> 2 powi \<lfloor>log 2 \<bar>x\<bar>\<rfloor>"
    by (intro power_int_increasing) simp_all
  with exponent_bounds [OF assms(1)] assms(2) show False by linarith
qed

lemma binary64_finite:
  assumes "\<bar>x\<bar> < 2 powi 1023"
  shows "\<exists>y. binary64 x = Num y"
proof (cases "x = 0")
  case True
  then show ?thesis by (simp add: binary64_def)
next
  case False
  define e where "e = \<lfloor>log 2 \<bar>x\<bar>\<rfloor>"
  define q where "q = max (e - 52) (- 1074)"
  define y where "y = of_int (round_half_even (x / 2 powi q)) * (2::real) powi q"
  have "e < 1023" unfolding e_def using False assms by (rule exponent_less)
  then have q: "q \<le> 970" unfolding q_def by simp
  have q': "(2::real) powi q \<le> 2 powi 970"
    using q by (intro power_int_increasing) simp_all
  have p: "0 < (2::real) powi q" by simp
  have "\<bar>of_int (round_half_even (x / 2 powi q))\<bar> \<le> \<bar>x / 2 powi q\<bar> + 1"
    using round_half_even_bounds [of "x / 2 powi q"] by linarith
  then have "\<bar>of_int (round_half_even (x / 2 powi q))\<bar> * 2 powi q
               \<le> (\<bar>x / 2 powi q\<bar> + 1) * 2 powi q"
    using p by (simp add: mult_right_mono)
  also have "\<dots> = \<bar>x\<bar> + 2 powi q"
    using p by (simp add: field_simps abs_mult)
  finally have "\<bar>y\<bar> \<le> \<bar>x\<bar> + 2 powi q"
    unfolding y_def by (simp add: abs_mult)
  with assms q' have "\<bar>y\<bar> < 2 powi 1023 + 2 powi 970" by linarith
  also have "\<dots> \<le> 2 powi 1023 + (2::real) powi 1023"
    by (intro add_left_mono power_int_increasing) simp_all
  also have "\<dots> = (2::real) powi 1024"
    using power_int_add [of "2::real" 1 1023] by simp
  finally have "\<bar>y\<bar> < 2 powi 1024" .
  then have "\<not> 2 ^ 1024 \<le> \<bar>y\<bar>" by (simp add: power_int_def)
  then have "binary64 x = Num y"
    using False unfolding binary64_def e_def q_def y_def Let_def by simp
  then show ?thesis by blast
qed

lemma binary64_exact:
  assumes x: "x = of_int m * 2 powi k" and m: "\<bar>m\<bar> < 2 ^ 53" and k: "- 1074 \<le> k"
    and big: "\<bar>x\<bar> < 2 ^ 1024"
  shows "binary64 x = Num x"
proof (cases "x = 0")
  case True
  then show ?thesis by (simp add: binary64_def)
next
  case False
  define e where "e = \<lfloor>log 2 \<bar>x\<bar>\<rfloor>"
  define q where "q = max (e - 52) (- 1074)"
  have m': "\<bar>real_of_int m\<bar> < 2 ^ 53"
    using m by (metis of_int_abs of_int_less_numeral_power_cancel_iff)
  have "\<bar>x\<bar> = \<bar>of_int m\<bar> * 2 powi k" unfolding x by (simp add: abs_mult)
  also have "\<dots> < 2 powi 53 * 2 powi k"
    using m' by (intro mult_strict_right_mono) simp_all
  also have "\<dots> = 2 powi (53 + k)"
    by (simp add: power_int_add)
  finally have "\<bar>x\<bar> < 2 powi (53 + k)" .
  with False have "e < 53 + k" unfolding e_def by (rule exponent_less)
  then have "q \<le> k" unfolding q_def using k by simp
  then obtain n where n: "k = q + int n" by (metis zle_iff_zadd)
  have "x / 2 powi q = of_int m * 2 ^ n"
    unfolding x n by (simp add: power_int_add)
  also have "\<dots> = of_int (m * 2 ^ n)" by simp
  finally have "round_half_even (x / 2 powi q) = m * 2 ^ n"
    by (simp only: round_half_even_int)
  then have y: "of_int (round_half_even (x / 2 powi q)) * 2 powi q = x"
    unfolding x n by (simp add: power_int_add)
  show ?thesis
    using False big unfolding binary64_def Let_def e_def [symmetric] q_def [symmetric] y by simp
qed

lemma binary64_int:
  assumes "\<bar>m\<bar> < 2 ^ 53"
  shows "binary64 (of_int m) = Num (of_int m)"
proof (rule binary64_exact [where m = m and k = 0])
  show "of_int m = of_int m * 2 powi 0" by simp
  show "\<bar>m\<bar> < 2 ^ 53" by (rule assms)
  show "- 1074 \<le> (0::int)" by simp
  have "\<bar>real_of_int m\<bar> < 2 ^ 53" using assms by (metis of_int_abs of_int_less_numeral_power_cancel_iff)
  also have "\<dots> < (2::real) ^ 1024" by simp
  finally show "\<bar>real_of_int m\<bar> < 2 ^ 1024" .
qed

lemma deg_factor: "js_div Math_PI (Num 180) = Num (5030569068109113 / 2 ^ 58)"
  unfolding Math_PI_def
  by (simp, subst binary64_normal [of "- 6"]) (simp_all add: round_half_even_def Let_def)

subsection \<open>Delivery cost\<close>

lemma cost_examples:
  "calculateDeliveryCost (Num 3) (Num 5) None = Num 0"
  "calculateDeliveryCost (Num 10) (Num 5) None = Num 75"
  "calculateDeliveryCost (Num 10) (Num 5) (Some (Num (- 75))) = Num (- 50)"
  "calculateDeliveryCost (Num 10) (Num 5) (Some (Num (51 / 2))) = Num (101 / 2)"
proof -
  have i: "binary64 (of_int m) = Num (of_int m)" if "\<bar>m\<bar> < 2 ^ 53" for m
    using that by (rule binary64_int)
  have a: "binary64 5 = Num 5" using i [of 5] by simp
  have b: "binary64 25 = Num 25" using i [of 25] by simp
  have c: "binary64 75 = Num 75" using i [of 75] by simp
  have d: "binary64 (- 50) = Num (- 50)" using i [of "- 50"] by simp
  have e: "binary64 (101 / 2) = Num (101 / 2)"
    by (rule binary64_exact [where m = 101 and k = "- 1"]) simp_all
  show "calculateDeliveryCost (Num 3) (Num 5) None = Num 0"
    by (simp add: calculateDeliveryCost_def)
  show "calculateDeliveryCost (Num 10) (Num 5) None = Num 75"
    by (simp add: calculateDeliveryCost_def js_sub_def a b c)
  show "calculateDeliveryCost (Num 10) (Num 5) (Some (Num (- 75))) = Num (- 50)"
    by (simp add: calculateDeliveryCost_def js_sub_def a b d)
  show "calculateDeliveryCost (Num 10) (Num 5) (Some (Num (51 / 2))) = Num (101 / 2)"
    by (simp add: calculateDeliveryCost_def js_sub_def a b e)
qed

lemma cost_double_rounding:
  "calculateDeliveryCost (Num (8219069319951155 / 2 ^ 50)) (Num 5) None = Num 62"
proof -
  have a: "binary64 (8219069319951155 / 2 ^ 50 - 5) = Num (2589569785738035 / 2 ^ 50)"
    by (subst binary64_normal [of 1]) (simp_all add: round_half_even_def Let_def)
  have b: "binary64 (2589569785738035 / 2 ^ 50 * 5) = Num (23 / 2)"
    by (subst binary64_normal [of 3]) (simp_all add: round_half_even_def Let_def)
  have c: "binary64 62 = Num 62" using binary64_int [of 62] by simp
  show ?thesis
    using a b c by (simp add: calculateDeliveryCost_def js_sub_def)
qed


lemma nonneg_cases: "js_le (Num 0) a \<longleftrightarrow> a = Infinity \<or> (\<exists>x. 0 \<le> x \<and> a = Num x)"
  by (cases a) auto

lemma nonneg_binary64: "0 \<le> x \<Longrightarrow> js_le (Num 0) (binary64 x)"
  using binary64_nonneg [of x] by (auto simp: nonneg_cases)

lemma nonneg_sub:
  assumes "js_le (Num 0) d" and "js_le (Num 0) f" and "\<not> js_le d f"
  shows "js_le (Num 0) (js_sub d f)"
proof (cases d)
  case (Num x)
  with assms obtain y where "f = Num y" and "y < x" by (cases f) auto
  with Num show ?thesis by (simp add: js_sub_def nonneg_binary64)
next
  case NaN
  with assms show ?thesis by simp
next
  case Infinity
  with assms obtain y where "f = Num y" by (cases f) auto
  with Infinity show ?thesis by (simp add: js_sub_def)
next
  case MinusInfinity
  with assms show ?thesis by simp
qed

lemma nonneg_mul5: "js_le (Num 0) a \<Longrightarrow> js_le (Num 0) (js_mul a (Num 5))"
  by (cases a) (auto simp: nonneg_binary64)

lemma nonneg_round: "js_le (Num 0) a \<Longrightarrow> js_le (Num 0) (Math_round a)"
  by (cases a) auto

lemma nonneg_add: "js_le (Num 0) a \<Longrightarrow> js_le (Num 0) b \<Longrightarrow> js_le (Num 0) (js_add a b)"
  by (cases a; cases b) (auto simp: nonneg_binary64)

lemma Math_round_round: "Math_round (Num p) = Num (of_int (round p))"
  by (simp add: round_def)

text \<open>
  Claim C6, as stated, fails in three ways. The difference and the product are rounded to
  doubles before \<open>Math.round\<close> sees them: for the distance 7.3 (the double
  8219069319951155 / 2 ^ 50) and the free radius 5 the product rounds to 11.5 and the cost
  is 62, while 50 + 5 * (distance - 5), a little less than 61.5, rounded to the nearest
  integer is 61. Only the surcharge is rounded, not the sum: with the base cost 25.5 the
  cost of 10 km at a free radius of 5 km is 50.5, not an integer. And with the base cost
  -75 the cost is -50, a negative number.
\<close>

theorem calculateDeliveryCost_counterexample:
  "calculateDeliveryCost (Num (8219069319951155 / 2 ^ 50)) (Num 5) None = Num 62
   \<and> round (50 + 5 * (8219069319951155 / 2 ^ 50 - 5) :: real) = 61
   \<and> calculateDeliveryCost (Num 10) (Num 5) (Some (Num (51 / 2))) = Num (101 / 2)
   \<and> calculateDeliveryCost (Num 10) (Num 5) (Some (Num (- 75))) = Num (- 50)"
proof -
  have "round (50 + 5 * (8219069319951155 / 2 ^ 50 - 5) :: real) = 61"
    unfolding round_def by (rule floor_unique) simp_all
  with cost_double_rounding cost_examples(3,4) show ?thesis by simp
qed

text \<open>
  Claim C6, amended. For all non-negative numbers distanceKm, freeRadiusKm and baseCost
  (50 when absent), \<open>calculateDeliveryCost\<close> returns 0 when distanceKm <= freeRadiusKm,
  and otherwise returns baseCost + Math.round((distanceKm - freeRadiusKm) * 5), where the
  difference, the product and the sum are each rounded to a double and \<open>Math.round\<close>
  rounds the product to the nearest integer, a half upwards; the result is never negative;
  in particular the cost of (3, 5) is 0 and the cost of (10, 5) is 75.
\<close>

theorem calculateDeliveryCost_spec:
  assumes "js_le (Num 0) d" and "js_le (Num 0) f"
    and "js_le (Num 0) (case b of None \<Rightarrow> Num 50 | Some v \<Rightarrow> v)"
  shows "(js_le d f \<longrightarrow> calculateDeliveryCost d f b = Num 0)
   \<and> (\<not> js_le d f \<longrightarrow>
        calculateDeliveryCost d f b
          = js_add (case b of None \<Rightarrow> Num 50 | Some v \<Rightarrow> v)
              (Math_round (js_mul (js_sub d f) (Num 5))))
   \<and> (\<forall>p. \<not> js_le d f \<and> js_mul (js_sub d f) (Num 5) = Num p \<longrightarrow>
        calculateDeliveryCost d f b
          = js_add (case b of None \<Rightarrow> Num 50 | Some v \<Rightarrow> v) (Num (of_int (round p))))
   \<and> js_le (Num 0) (calculateDeliveryCost d f b)
   \<and> calculateDeliveryCost (Num 3) (Num 5) None = Num 0
   \<and> calculateDeliveryCost (Num 10) (Num 5) None = Num 75"
proof -
  let ?base = "case b of None \<Rightarrow> Num 50 | Some v \<Rightarrow> v"
  have v: "calculateDeliveryCost d f b
             = (if js_le d f then Num 0
                else js_add ?base (Math_round (js_mul (js_sub d f) (Num 5))))"
    by (simp add: calculateDeliveryCost_def)
  have nn: "js_le (Num 0) (calculateDeliveryCost d f b)"
  proof (cases "js_le d f")
    case True
    then show ?thesis by (simp add: v)
  next
    case False
    have "js_le (Num 0) (Math_round (js_mul (js_sub d f) (Num 5)))"
      using assms(1,2) False by (intro nonneg_round nonneg_mul5 nonneg_sub)
    with assms(3) have "js_le (Num 0) (js_add ?base (Math_round (js_mul (js_sub d f) (Num 5))))"
      by (rule nonneg_add)
    with False show ?thesis by (simp add: v)
  qed
  from v nn cost_examples(1,2) show ?thesis
    by (auto simp: Math_round_round [symmetric] simp del: Math_round.simps)
qed

theorem calculateDeliveryCost_spec_witness:
  "calculateDeliveryCost (Num 3) (Num 5) (Some (Num 30)) = Num 0
   \<and> calculateDeliveryCost (Num 10) (Num 5) (Some (Num 30)) = Num 55
   \<and> js_le (Num 0) (calculateDeliveryCost (Num 10) (Num 5) (Some (Num 30)))"
proof -
  have a: "binary64 5 = Num 5" using binary64_int [of 5] by simp
  have b: "binary64 25 = Num 25" using binary64_int [of 25] by simp
  have c: "binary64 55 = Num 55" using binary64_int [of 55] by simp
  have h: "js_le (Num 0) (Num 3)" "js_le (Num 0) (Num 5)" "js_le (Num 0) (Num 10)"
    "js_le (Num 0) (case Some (Num 30) of None \<Rightarrow> Num 50 | Some v \<Rightarrow> v)"
    by simp_all
  have i: "js_le (Num 3) (Num 5)" "\<not> js_le (Num 10) (Num 5)" by simp_all
  have m: "js_add (case Some (Num 30) of None \<Rightarrow> Num 50 | Some v \<Rightarrow> v)
             (Math_round (js_mul (js_sub (Num 10) (Num 5)) (Num 5))) = Num 55"
    by (simp add: js_sub_def a b c)
  from calculateDeliveryCost_spec [OF h(1) h(2) h(4)] i(1)
  have x: "calculateDeliveryCost (Num 3) (Num 5) (Some (Num 30)) = Num 0" by blast
  from calculateDeliveryCost_spec [OF h(3) h(2) h(4)] i(2)
  have y: "calculateDeliveryCost (Num 10) (Num 5) (Some (Num 30))
             = js_add (case Some (Num 30) of None \<Rightarrow> Num 50 | Some v \<Rightarrow> v)
                 (Math_round (js_mul (js_sub (Num 10) (Num 5)) (Num 5)))"
    and z: "js_le (Num 0) (calculateDeliveryCost (Num 10) (Num 5) (Some (Num 30)))"
    by blast+
  from x y z show ?thesis unfolding m by simp
qed

subsection \<open>Distance\<close>

text \<open>
  The distance of a point to itself is 0, whatever the library and whether or not the
  point is in range; a distance to a point whose latitude is NaN is NaN.
\<close>

lemma js_sub_self: "js_sub (Num x) (Num x) = Num 0"
  by (simp add: js_sub_def binary64_zero)

lemma toRad_zero: "toRad (Num 0) = Num 0"
  by (simp add: toRad_def deg_factor binary64_zero)

lemma toRad_finite:
  assumes "\<bar>x\<bar> < 2 ^ 1024"
  shows "\<exists>t. toRad (Num x) = Num t"
proof -
  have k: "(5030569068109113 / 2 ^ 58 :: real) \<le> 1 / 2" by simp
  have "\<bar>x * (5030569068109113 / 2 ^ 58)\<bar> = \<bar>x\<bar> * (5030569068109113 / 2 ^ 58)"
    by (simp add: abs_mult)
  also have "\<dots> \<le> \<bar>x\<bar> * (1 / 2)"
    using k by (intro mult_left_mono) simp_all
  also have "\<dots> < 2 ^ 1024 * (1 / 2)"
    using assms by simp
  also have "\<dots> = (2::real) powi 1023"
    by (simp add: power_int_def)
  finally have "\<exists>t. binary64 (x * (5030569068109113 / 2 ^ 58)) = Num t"
    by (rule binary64_finite)
  then show ?thesis by (simp add: toRad_def deg_factor)
qed

lemma cos_square_finite: "\<exists>p. js_mul (Math_cos L (Num t)) (Math_cos L (Num t)) = Num p"
proof -
  define c where "c = max (- 1) (min 1 (libm_cos L t))"
  have "\<bar>c\<bar> \<le> 1" unfolding c_def by auto
  then have "\<bar>c * c\<bar> \<le> 1 * 1" unfolding abs_mult by (intro mult_mono) simp_all
  also have "\<dots> < (2::real) powi 1023" by (simp add: power_int_def)
  finally have "\<exists>p. binary64 (c * c) = Num p" by (rule binary64_finite)
  then show ?thesis by (simp add: c_def)
qed

lemma distance_self:
  assumes "\<bar>lat\<bar> < 2 ^ 1024"
  shows "calculateDistance L (Num lat) (Num lon) (Num lat) (Num lon) = Num 0"
proof -
  obtain t where t: "toRad (Num lat) = Num t" using toRad_finite [OF assms] by blast
  obtain p where p: "js_mul (Math_cos L (Num t)) (Math_cos L (Num t)) = Num p"
    using cos_square_finite by blast
  have one: "binary64 1 = Num 1" using binary64_int [of 1] by simp
  show ?thesis
    unfolding calculateDistance_def Let_def js_sub_self toRad_zero t p
    by (simp add: binary64_zero js_sub_def one Math_atan2_def)
qed

lemma distance_NaN: "calculateDistance L lat1 lon1 NaN lon2 = NaN"
  by (simp add: calculateDistance_def Let_def js_sub_def toRad_def Math_atan2_def)

text \<open>
  Claim C5 fails on the code for the points (-82, -180) and (82, 0), both in range and
  opposite each other on the globe. With the values of \<open>Math.sin\<close> and \<open>Math.cos\<close> that
  fdlibm and the GNU C library return at the four arguments that occur (the hypotheses),
  the local variable \<open>a\<close> is rounded to 1 + 2 powi (- 52), so that \<open>1 - a\<close> is negative,
  \<open>Math.sqrt(1 - a)\<close> is NaN and so is the distance. NaN equals no number: the distance
  from the first point to the second is not equal to the distance back.
\<close>

theorem calculateDistance_antipodal_NaN:
  assumes s1: "libm_sin L (6445416618514801 / 2 ^ 52) = 4459770905381437 / 2 ^ 52"
    and s2: "libm_sin L (884279719003555 / 2 ^ 49) = 1"
    and c1: "libm_cos L (- (6445416618514801 / 2 ^ 52)) = 2507119702494989 / 2 ^ 54"
    and c2: "libm_cos L (6445416618514801 / 2 ^ 52) = 2507119702494989 / 2 ^ 54"
  shows "validCoordinates (Num (- 82)) (Num (- 180)) \<and> validCoordinates (Num 82) (Num 0)
    \<and> calculateDistance L (Num (- 82)) (Num (- 180)) (Num 82) (Num 0) = NaN
    \<and> \<not> js_eq (calculateDistance L (Num (- 82)) (Num (- 180)) (Num 82) (Num 0))
              (calculateDistance L (Num 82) (Num 0) (Num (- 82)) (Num (- 180)))"
proof -
  have i: "binary64 (of_int m) = Num (of_int m)" if "\<bar>m\<bar> < 2 ^ 53" for m
    using that by (rule binary64_int)
  have d164: "js_sub (Num 82) (Num (- 82)) = Num 164"
    using i [of 164] by (simp add: js_sub_def)
  have d180: "js_sub (Num 0) (Num (- 180)) = Num 180"
    using i [of 180] by (simp add: js_sub_def)
  have r164: "toRad (Num 164) = Num (6445416618514801 / 2 ^ 51)"
    unfolding toRad_def deg_factor
    by (simp, subst binary64_normal [of 1]) (simp_all add: round_half_even_def Let_def)
  have r180: "toRad (Num 180) = Num (884279719003555 / 2 ^ 48)"
    unfolding toRad_def deg_factor
    by (simp, subst binary64_normal [of 1]) (simp_all add: round_half_even_def Let_def)
  have rm82: "toRad (Num (- 82)) = Num (- (6445416618514801 / 2 ^ 52))"
    unfolding toRad_def deg_factor
    by (simp, subst binary64_normal [of 0]) (simp_all add: round_half_even_def Let_def)
  have r82: "toRad (Num 82) = Num (6445416618514801 / 2 ^ 52)"
    unfolding toRad_def deg_factor
    by (simp, subst binary64_normal [of 0]) (simp_all add: round_half_even_def Let_def)
  have h1: "js_div (Num (6445416618514801 / 2 ^ 51)) (Num 2) = Num (6445416618514801 / 2 ^ 52)"
    by (simp, subst binary64_normal [of 0]) (simp_all add: round_half_even_def Let_def)
  have h2: "js_div (Num (884279719003555 / 2 ^ 48)) (Num 2) = Num (884279719003555 / 2 ^ 49)"
    by (simp, subst binary64_normal [of 0]) (simp_all add: round_half_even_def Let_def)
  have sin1: "Math_sin L (Num (6445416618514801 / 2 ^ 52)) = Num (4459770905381437 / 2 ^ 52)"
    using s1 by simp
  have sin2: "Math_sin L (Num (884279719003555 / 2 ^ 49)) = Num 1"
    using s2 by simp
  have cos1: "Math_cos L (Num (- (6445416618514801 / 2 ^ 52))) = Num (2507119702494989 / 2 ^ 54)"
    using c1 by simp
  have cos2: "Math_cos L (Num (6445416618514801 / 2 ^ 52)) = Num (2507119702494989 / 2 ^ 54)"
    using c2 by simp
  have p1: "js_mul (Num (4459770905381437 / 2 ^ 52)) (Num (4459770905381437 / 2 ^ 52))
              = Num (8832737443003841 / 2 ^ 53)"
    by (simp, subst binary64_normal [of "- 1"]) (simp_all add: round_half_even_def Let_def)
  have p2: "js_mul (Num (2507119702494989 / 2 ^ 54)) (Num (2507119702494989 / 2 ^ 54))
              = Num (2791388987794435 / 2 ^ 57)"
    by (simp, subst binary64_normal [of "- 6"]) (simp_all add: round_half_even_def Let_def)
  have p3: "js_mul (Num (2791388987794435 / 2 ^ 57)) (Num 1) = Num (2791388987794435 / 2 ^ 57)"
    by (simp, subst binary64_normal [of "- 6"]) (simp_all add: round_half_even_def Let_def)
  have a: "js_add (Num (8832737443003841 / 2 ^ 53)) (Num (2791388987794435 / 2 ^ 57))
             = Num (4503599627370497 / 2 ^ 52)"
    by (simp, subst binary64_normal [of 0]) (simp_all add: round_half_even_def Let_def)
  have m: "js_sub (Num 1) (Num (4503599627370497 / 2 ^ 52)) = Num (- (1 / 2 ^ 52))"
    unfolding js_sub_def
    by (simp, subst binary64_normal [of "- 52"]) (simp_all add: round_half_even_def Let_def)
  have q: "Math_sqrt (Num (- (1 / 2 ^ 52))) = NaN" by simp
  have n: "calculateDistance L (Num (- 82)) (Num (- 180)) (Num 82) (Num 0) = NaN"
    unfolding calculateDistance_def Let_def d164 d180 r164 r180 rm82 r82 h1 h2 sin1 sin2
      cos1 cos2 p1 p2 p3 a m q
    by (simp add: Math_atan2_def)
  show ?thesis unfolding n by (simp add: validCoordinates_def)
qed

theorem calculateDistance_antipodal_NaN_witness:
  "calculateDistance example_libm (Num (- 82)) (Num (- 180)) (Num 82) (Num 0) = NaN
   \<and> \<not> js_eq (calculateDistance example_libm (Num (- 82)) (Num (- 180)) (Num 82) (Num 0))
             (calculateDistance example_libm (Num 82) (Num 0) (Num (- 82)) (Num (- 180)))"
proof -
  have s1: "libm_sin example_libm (6445416618514801 / 2 ^ 52) = 4459770905381437 / 2 ^ 52"
    and s2: "libm_sin example_libm (884279719003555 / 2 ^ 49) = 1"
    and c1: "libm_cos example_libm (- (6445416618514801 / 2 ^ 52))
               = 2507119702494989 / 2 ^ 54"
    and c2: "libm_cos example_libm (6445416618514801 / 2 ^ 52) = 2507119702494989 / 2 ^ 54"
    by (simp_all add: example_libm_def)
  from calculateDistance_antipodal_NaN [OF s1 s2 c1 c2] show ?thesis by blast
qed

subsection \<open>Route\<close>

text \<open>
  \<open>nearer\<close> is a strict weak order. The scan returns the first position whose distance no
  other position beats; the route is the input read along the positions that \<open>nn_order\<close>
  lists, and these are in nearest-first order.
\<close>

lemma nearer_less: "b \<noteq> NaN \<Longrightarrow> nearer a b = js_less a b"
  unfolding nearer_def by (cases a; cases b) auto

lemma nearer_irrefl: "\<not> nearer a a"
  unfolding nearer_def by (cases a) auto

lemma nearer_asym: "nearer a b \<Longrightarrow> \<not> nearer b a"
  unfolding nearer_def by (cases a; cases b) auto

lemma nearer_negtrans: "\<not> nearer a b \<Longrightarrow> \<not> nearer b c \<Longrightarrow> \<not> nearer a c"
  unfolding nearer_def by (cases a; cases b; cases c) auto

lemma js_less_trans: "js_less a b \<Longrightarrow> js_less b c \<Longrightarrow> js_less a c"
  by (cases a; cases b; cases c) auto

lemma js_less_not_NaN: "js_less a b \<Longrightarrow> a \<noteq> NaN"
  by (cases a) auto

lemma not_less_Infinity: "\<not> js_less b Infinity \<Longrightarrow> \<not> nearer b a"
  unfolding nearer_def by (cases a; cases b) auto

lemma nearest_scan_cases:
  assumes "m \<noteq> NaN"
  shows "(nearest_scan L c ps i n m = n
            \<and> (\<forall>k<length ps. \<not> js_less (distanceBetween L c (ps ! k)) m))
   \<or> (\<exists>r<length ps. nearest_scan L c ps i n m = i + r
         \<and> js_less (distanceBetween L c (ps ! r)) m
         \<and> (\<forall>k<length ps. \<not> nearer (distanceBetween L c (ps ! k))
                                   (distanceBetween L c (ps ! r)))
         \<and> (\<forall>k<r. nearer (distanceBetween L c (ps ! r)) (distanceBetween L c (ps ! k))))"
  using assms
proof (induction ps arbitrary: i n m)
  case Nil
  then show ?case by simp
next
  case (Cons p ps)
  let ?d = "\<lambda>q. distanceBetween L c q"
  let ?dp = "?d p"
  show ?case
  proof (cases "js_less ?dp m")
    case True
    then have dp: "?dp \<noteq> NaN" by (rule js_less_not_NaN)
    from True have step:
      "nearest_scan L c (p # ps) i n m = nearest_scan L c ps (Suc i) i ?dp"
      by simp
    from Cons.IH [OF dp, of "Suc i" i]
    show ?thesis
    proof (elim disjE conjE exE)
      assume a: "nearest_scan L c ps (Suc i) i ?dp = i"
        and b: "\<forall>k<length ps. \<not> js_less (?d (ps ! k)) ?dp"
      have "\<forall>k<length (p # ps). \<not> nearer (?d ((p # ps) ! k)) (?d ((p # ps) ! 0))"
      proof (intro allI impI)
        fix k assume "k < length (p # ps)"
        then show "\<not> nearer (?d ((p # ps) ! k)) (?d ((p # ps) ! 0))"
          using b dp by (cases k) (auto simp: nearer_less nearer_irrefl)
      qed
      then have "\<exists>r<length (p # ps). nearest_scan L c (p # ps) i n m = i + r
         \<and> js_less (?d ((p # ps) ! r)) m
         \<and> (\<forall>k<length (p # ps). \<not> nearer (?d ((p # ps) ! k)) (?d ((p # ps) ! r)))
         \<and> (\<forall>k<r. nearer (?d ((p # ps) ! r)) (?d ((p # ps) ! k)))"
        using step a True by (intro exI [of _ 0]) simp
      then show ?thesis by blast
    next
      fix r assume r: "r < length ps"
        and a: "nearest_scan L c ps (Suc i) i ?dp = Suc i + r"
        and b: "js_less (?d (ps ! r)) ?dp"
        and mn: "\<forall>k<length ps. \<not> nearer (?d (ps ! k)) (?d (ps ! r))"
        and fs: "\<forall>k<r. nearer (?d (ps ! r)) (?d (ps ! k))"
      from b dp have lt: "nearer (?d (ps ! r)) ?dp" by (simp add: nearer_less)
      have lm: "js_less (?d (ps ! r)) m"
        using b True by (rule js_less_trans)
      have mn': "\<forall>k<length (p # ps). \<not> nearer (?d ((p # ps) ! k)) (?d ((p # ps) ! Suc r))"
      proof (intro allI impI)
        fix k assume "k < length (p # ps)"
        then show "\<not> nearer (?d ((p # ps) ! k)) (?d ((p # ps) ! Suc r))"
          using mn nearer_asym [OF lt] by (cases k) auto
      qed
      have fs': "\<forall>k<Suc r. nearer (?d ((p # ps) ! Suc r)) (?d ((p # ps) ! k))"
      proof (intro allI impI)
        fix k assume "k < Suc r"
        then show "nearer (?d ((p # ps) ! Suc r)) (?d ((p # ps) ! k))"
          using fs lt by (cases k) auto
      qed
      have "\<exists>r<length (p # ps). nearest_scan L c (p # ps) i n m = i + r
         \<and> js_less (?d ((p # ps) ! r)) m
         \<and> (\<forall>k<length (p # ps). \<not> nearer (?d ((p # ps) ! k)) (?d ((p # ps) ! r)))
         \<and> (\<forall>k<r. nearer (?d ((p # ps) ! r)) (?d ((p # ps) ! k)))"
        using step a r lm mn' fs' by (intro exI [of _ "Suc r"]) simp
      then show ?thesis by blast
    qed
  next
    case False
    then have step: "nearest_scan L c (p # ps) i n m = nearest_scan L c ps (Suc i) n m"
      by simp
    from False Cons.prems have nm: "\<not> nearer ?dp m" by (simp add: nearer_less)
    from Cons.IH [OF Cons.prems, of "Suc i" n]
    show ?thesis
    proof (elim disjE conjE exE)
      assume a: "nearest_scan L c ps (Suc i) n m = n"
        and b: "\<forall>k<length ps. \<not> js_less (?d (ps ! k)) m"
      have "\<forall>k<length (p # ps). \<not> js_less (?d ((p # ps) ! k)) m"
      proof (intro allI impI)
        fix k assume "k < length (p # ps)"
        then show "\<not> js_less (?d ((p # ps) ! k)) m"
          using b False by (cases k) auto
      qed
      with step a show ?thesis by simp
    next
      fix r assume r: "r < length ps"
        and a: "nearest_scan L c ps (Suc i) n m = Suc i + r"
        and b: "js_less (?d (ps ! r)) m"
        and mn: "\<forall>k<length ps. \<not> nearer (?d (ps ! k)) (?d (ps ! r))"
        and fs: "\<forall>k<r. nearer (?d (ps ! r)) (?d (ps ! k))"
      from b Cons.prems have rm: "nearer (?d (ps ! r)) m" by (simp add: nearer_less)
      have lt: "nearer (?d (ps ! r)) ?dp"
        using rm nm nearer_negtrans by blast
      have mn': "\<forall>k<length (p # ps). \<not> nearer (?d ((p # ps) ! k)) (?d ((p # ps) ! Suc r))"
      proof (intro allI impI)
        fix k assume "k < length (p # ps)"
        then show "\<not> nearer (?d ((p # ps) ! k)) (?d ((p # ps) ! Suc r))"
          using mn nearer_asym [OF lt] by (cases k) auto
      qed
      have fs': "\<forall>k<Suc r. nearer (?d ((p # ps) ! Suc r)) (?d ((p # ps) ! k))"
      proof (intro allI impI)
        fix k assume "k < Suc r"
        then show "nearer (?d ((p # ps) ! Suc r)) (?d ((p # ps) ! k))"
          using fs lt by (cases k) auto
      qed
      have "\<exists>r<length (p # ps). nearest_scan L c (p # ps) i n m = i + r
         \<and> js_less (?d ((p # ps) ! r)) m
         \<and> (\<forall>k<length (p # ps). \<not> nearer (?d ((p # ps) ! k)) (?d ((p # ps) ! r)))
         \<and> (\<forall>k<r. nearer (?d ((p # ps) ! r)) (?d ((p # ps) ! k)))"
        using step a r b mn' fs' by (intro exI [of _ "Suc r"]) simp
      then show ?thesis by blast
    qed
  qed
qed

lemma nearest_scan_first:
  assumes "ps \<noteq> []"
  shows "nearest_scan L c ps 0 0 Infinity < length ps
    \<and> (\<forall>k<length ps. \<not> nearer (distanceBetween L c (ps ! k))
            (distanceBetween L c (ps ! nearest_scan L c ps 0 0 Infinity)))
    \<and> (\<forall>k<nearest_scan L c ps 0 0 Infinity.
          nearer (distanceBetween L c (ps ! nearest_scan L c ps 0 0 Infinity))
            (distanceBetween L c (ps ! k)))"
proof -
  have inf: "Infinity \<noteq> NaN" by simp
  from nearest_scan_cases [OF inf, of L c ps 0 0]
  show ?thesis
  proof (elim disjE conjE exE)
    assume a: "nearest_scan L c ps 0 0 Infinity = 0"
      and b: "\<forall>k<length ps. \<not> js_less (distanceBetween L c (ps ! k)) Infinity"
    from b have "\<forall>k<length ps. \<not> nearer (distanceBetween L c (ps ! k))
            (distanceBetween L c (ps ! 0))"
      by (simp add: not_less_Infinity)
    with a assms show ?thesis by simp
  next
    fix r assume "r < length ps" "nearest_scan L c ps 0 0 Infinity = 0 + r"
      "\<forall>k<length ps. \<not> nearer (distanceBetween L c (ps ! k)) (distanceBetween L c (ps ! r))"
      "\<forall>k<r. nearer (distanceBetween L c (ps ! r)) (distanceBetween L c (ps ! k))"
    then show ?thesis by simp
  qed
qed


lemma scan_index:
  "u \<noteq> [] \<Longrightarrow> nearest_scan L (ps ! c) (map ((!) ps) u) 0 0 Infinity < length u"
  using nearest_scan_first [of "map ((!) ps) u" L "ps ! c"] by simp

lemma map_splice1: "map f (splice1 n xs) = splice1 n (map f xs)"
  by (simp add: splice1_def take_map drop_map)

lemma mset_splice1: "n < length xs \<Longrightarrow> add_mset (xs ! n) (mset (splice1 n xs)) = mset xs"
proof -
  assume n: "n < length xs"
  have "xs = take n xs @ (xs ! n) # drop (Suc n) xs"
    using n by (simp add: id_take_nth_drop)
  then have "mset xs = mset (take n xs @ (xs ! n) # drop (Suc n) xs)" by simp
  then show ?thesis by (simp add: splice1_def)
qed

lemma route_loop_nn_order:
  "route_loop L (ps ! c) (map ((!) ps) u) r = r @ map ((!) ps) (nn_order L ps c u)"
proof (induction L ps c u arbitrary: r rule: nn_order.induct)
  case (1 L ps c u)
  show ?case
  proof (cases "u = []")
    case True
    then show ?thesis
      by (simp add: route_loop.simps [of _ _ "[]"] nn_order.simps [of _ _ _ "[]"])
  next
    case False
    define n where "n = nearest_scan L (ps ! c) (map ((!) ps) u) 0 0 Infinity"
    have n: "n < length u" unfolding n_def using False by (rule scan_index)
    have "route_loop L (ps ! c) (map ((!) ps) u) r
            = route_loop L (ps ! (u ! n)) (map ((!) ps) (splice1 n u)) (r @ [ps ! (u ! n)])"
      using False n
      by (subst route_loop.simps) (simp add: n_def [symmetric] Let_def map_splice1)
    also have "\<dots> = (r @ [ps ! (u ! n)]) @ map ((!) ps) (nn_order L ps (u ! n) (splice1 n u))"
      using "1.IH" [OF False n_def refl] .
    also have "\<dots> = r @ map ((!) ps) (nn_order L ps c u)"
      using False by (subst (2) nn_order.simps) (simp add: n_def [symmetric] Let_def)
    finally show ?thesis .
  qed
qed

lemma mset_nn_order: "mset (nn_order L ps c u) = mset u"
proof (induction L ps c u rule: nn_order.induct)
  case (1 L ps c u)
  show ?case
  proof (cases "u = []")
    case True
    then show ?thesis by (simp add: nn_order.simps [of _ _ _ "[]"])
  next
    case False
    define n where "n = nearest_scan L (ps ! c) (map ((!) ps) u) 0 0 Infinity"
    have n: "n < length u" unfolding n_def using False by (rule scan_index)
    have "nn_order L ps c u = u ! n # nn_order L ps (u ! n) (splice1 n u)"
      using False by (subst nn_order.simps) (simp add: n_def [symmetric] Let_def)
    then show ?thesis
      using "1.IH" [OF False n_def refl] mset_splice1 [OF n] by simp
  qed
qed

lemma sorted_splice1: "sorted_wrt (<) (u :: nat list) \<Longrightarrow> sorted_wrt (<) (splice1 n u)"
proof -
  assume s: "sorted_wrt (<) u"
  have "sorted_wrt (<) (take n u @ drop n u)"
    using s by (simp only: append_take_drop_id)
  then have a: "sorted_wrt (<) (take n u)" and b: "sorted_wrt (<) (drop n u)"
    and c: "\<forall>x \<in> set (take n u). \<forall>y \<in> set (drop n u). x < y"
    unfolding sorted_wrt_append by blast+
  have d: "set (drop (Suc n) u) \<subseteq> set (drop n u)"
    by (rule set_drop_subset_set_drop) simp
  have "sorted_wrt (<) (drop (Suc n) u)"
    using s by (rule sorted_wrt_drop)
  with a c d show ?thesis
    by (auto simp: splice1_def sorted_wrt_append)
qed

lemma set_splice1:
  assumes "distinct u" and "n < length u"
  shows "set (splice1 n u) = set u - {u ! n}"
proof -
  have "add_mset (u ! n) (mset (splice1 n u)) = mset u"
    using assms(2) by (rule mset_splice1)
  moreover from this have "distinct (u ! n # splice1 n u)"
    using assms(1) by (metis distinct.simps(2) mset.simps(2) mset_eq_imp_distinct_iff)
  ultimately show ?thesis
    by (metis Diff_insert_absorb distinct.simps(2) list.simps(15) mset.simps(2) mset_eq_setD)
qed

lemma nn_order_nearest_first:
  "sorted_wrt (<) u \<Longrightarrow> nearest_first L ps c (set u) (nn_order L ps c u)"
proof (induction L ps c u rule: nn_order.induct)
  case (1 L ps c u)
  let ?d = "\<lambda>j. distanceBetween L (ps ! c) (ps ! j)"
  show ?case
  proof (cases "u = []")
    case True
    then show ?thesis by (simp add: nn_order.simps [of _ _ _ "[]"])
  next
    case False
    define n where "n = nearest_scan L (ps ! c) (map ((!) ps) u) 0 0 Infinity"
    have n: "n < length u" unfolding n_def using False by (rule scan_index)
    have eq: "nn_order L ps c u = u ! n # nn_order L ps (u ! n) (splice1 n u)"
      using False by (subst nn_order.simps) (simp add: n_def [symmetric] Let_def)
    from nearest_scan_first [of "map ((!) ps) u" L "ps ! c"] False
    have mn: "\<forall>k<length u. \<not> nearer (?d (u ! k)) (?d (u ! n))"
      and fs: "\<forall>k<n. nearer (?d (u ! n)) (?d (u ! k))"
      using n by (simp_all add: n_def [symmetric])
    have dis: "distinct u" using "1.prems" by (simp add: strict_sorted_iff)
    have closest: "\<forall>j \<in> set u. \<not> nearer (?d j) (?d (u ! n))
                 \<and> (\<not> nearer (?d (u ! n)) (?d j) \<longrightarrow> u ! n \<le> j)"
    proof
      fix j assume "j \<in> set u"
      then obtain k where k: "k < length u" "j = u ! k" by (auto simp: in_set_conv_nth)
      have le: "\<not> nearer (?d j) (?d (u ! n))"
        using mn k by simp
      have "u ! n \<le> j" if "\<not> nearer (?d (u ! n)) (?d j)"
      proof -
        have "\<not> k < n" using fs that k(2) by auto
        then have "n \<le> k" by simp
        then show ?thesis
          using "1.prems" k n by (cases "n = k") (auto simp: sorted_wrt_iff_nth_less less_imp_le)
      qed
      with le show "\<not> nearer (?d j) (?d (u ! n))
                 \<and> (\<not> nearer (?d (u ! n)) (?d j) \<longrightarrow> u ! n \<le> j)"
        by simp
    qed
    have "nearest_first L ps (u ! n) (set (splice1 n u)) (nn_order L ps (u ! n) (splice1 n u))"
      using "1.IH" [OF False n_def refl] "1.prems" by (simp add: sorted_splice1)
    then have rest:
      "nearest_first L ps (u ! n) (set u - {u ! n}) (nn_order L ps (u ! n) (splice1 n u))"
      using set_splice1 [OF dis n] by simp
    show ?thesis
      unfolding eq using n closest rest by simp
  qed
qed

lemma tl_conv_map_nth: "tl xs = map ((!) xs) [1..<length xs]"
  by (rule nth_equalityI) (simp_all add: nth_tl)

lemma optimal_route_order:
  assumes "2 < length points"
  shows "calculateOptimalRoute L points
           = map ((!) points) (0 # nn_order L points 0 [1..<length points])"
proof -
  have ne: "points \<noteq> []" using assms by auto
  have "calculateOptimalRoute L points = route_loop L (hd points) (tl points) [hd points]"
    using assms by (simp add: calculateOptimalRoute_def Let_def)
  also have "\<dots> = route_loop L (points ! 0) (map ((!) points) [1..<length points]) [points ! 0]"
    using ne tl_conv_map_nth [of points] by (simp add: hd_conv_nth)
  also have "\<dots> = [points ! 0] @ map ((!) points) (nn_order L points 0 [1..<length points])"
    by (rule route_loop_nn_order)
  finally show ?thesis by simp
qed

lemma mset_order:
  assumes "0 < n"
  shows "mset (0 # nn_order L ps 0 [1..<n]) = mset [0..<n]"
proof -
  have "[0..<n] = 0 # [1..<n]" using assms by (simp add: upt_conv_Cons)
  then show ?thesis by (simp add: mset_nn_order)
qed

text \<open>
  Claim C4. For every input list of points the route is a permutation of the input; an
  input of length at most 2 is returned unchanged; otherwise the route is the input read
  along an order of its positions that starts with position 0, visits every position
  exactly once, and at each step takes a position not yet visited whose point is closest
  by \<open>calculateDistance\<close> to the point before it, the lowest such position where
  distances tie. Distances are the numbers the code computes, compared as the code
  compares them; a distance that is NaN counts like \<open>Infinity\<close>.
\<close>

theorem calculateOptimalRoute_spec:
  "mset (calculateOptimalRoute L points) = mset points
   \<and> (length points \<le> 2 \<longrightarrow> calculateOptimalRoute L points = points)
   \<and> (2 < length points \<longrightarrow>
        (\<exists>order. calculateOptimalRoute L points = map ((!) points) (0 # order)
           \<and> distinct (0 # order) \<and> set (0 # order) = {..<length points}
           \<and> nearest_first L points 0 {1..<length points} order))"
proof (cases "length points \<le> 2")
  case True
  then show ?thesis by (simp add: calculateOptimalRoute_def)
next
  case False
  then have len: "2 < length points" by simp
  let ?order = "nn_order L points 0 [1..<length points]"
  have r: "calculateOptimalRoute L points = map ((!) points) (0 # ?order)"
    using len by (rule optimal_route_order)
  from len have pos: "0 < length points" by linarith
  have m: "mset (0 # ?order) = mset [0..<length points]"
    using pos by (rule mset_order)
  have "mset (calculateOptimalRoute L points) = image_mset ((!) points) (mset (0 # ?order))"
    unfolding r by (simp only: mset_map)
  also have "\<dots> = mset (map ((!) points) [0..<length points])"
    unfolding m by simp
  finally have perm: "mset (calculateOptimalRoute L points) = mset points"
    by (simp add: map_nth)
  have d: "distinct (0 # ?order)"
    using m by (metis distinct_upt mset_eq_imp_distinct_iff)
  have s: "set (0 # ?order) = {..<length points}"
    using m by (metis atLeast_upt mset_eq_setD)
  have "nearest_first L points 0 (set [1..<length points]) ?order"
    by (rule nn_order_nearest_first) (simp add: sorted_wrt_upt)
  then have g: "nearest_first L points 0 {1..<length points} ?order" by simp
  have ex: "\<exists>order. calculateOptimalRoute L points = map ((!) points) (0 # order)
           \<and> distinct (0 # order) \<and> set (0 # order) = {..<length points}
           \<and> nearest_first L points 0 {1..<length points} order"
    using r d s g by (intro exI [of _ ?order] conjI)
  show ?thesis
  proof (intro conjI impI)
    show "mset (calculateOptimalRoute L points) = mset points" by (rule perm)
  next
    assume "length points \<le> 2"
    with len show "calculateOptimalRoute L points = points" by simp
  next
    show "\<exists>order. calculateOptimalRoute L points = map ((!) points) (0 # order)
           \<and> distinct (0 # order) \<and> set (0 # order) = {..<length points}
           \<and> nearest_first L points 0 {1..<length points} order"
      by (rule ex)
  qed
qed

lemma example_route:
  "calculateOptimalRoute L [origin, missing_point, origin] = [origin, origin, missing_point]"
proof -
  have a: "calculateDistance L (Num 0) (Num 0) (Num 0) (Num 0) = Num 0"
    by (rule distance_self) simp
  have b: "calculateDistance L (Num 0) (Num 0) NaN (Num 0) = NaN"
    by (rule distance_NaN)
  show ?thesis
    using a b
    by (simp add: calculateOptimalRoute_def route_loop.simps splice1_def origin_def
          missing_point_def Let_def)
qed

theorem calculateOptimalRoute_spec_witness:
  "calculateOptimalRoute example_libm [origin, missing_point, origin]
     = [origin, origin, missing_point]
   \<and> mset [origin, origin, missing_point] = mset [origin, missing_point, origin]
   \<and> calculateOptimalRoute example_libm [origin, north_pole] = [origin, north_pole]
   \<and> (\<exists>order. [origin, origin, missing_point]
                  = map ((!) [origin, missing_point, origin]) (0 # order)
          \<and> distinct (0 # order) \<and> set (0 # order) = {..<3}
          \<and> nearest_first example_libm [origin, missing_point, origin] 0 {1..<3} order)"
proof -
  let ?L = example_libm
  have two: "calculateOptimalRoute ?L [origin, north_pole] = [origin, north_pole]"
    using calculateOptimalRoute_spec [of ?L "[origin, north_pole]"] by simp
  have three: "(2 :: nat) < length [origin, missing_point, origin]" by simp
  from calculateOptimalRoute_spec [of ?L "[origin, missing_point, origin]"] three
  have perm: "mset (calculateOptimalRoute ?L [origin, missing_point, origin])
                = mset [origin, missing_point, origin]"
    and ex: "\<exists>order. calculateOptimalRoute ?L [origin, missing_point, origin]
                  = map ((!) [origin, missing_point, origin]) (0 # order)
          \<and> distinct (0 # order)
          \<and> set (0 # order) = {..<length [origin, missing_point, origin]}
          \<and> nearest_first ?L [origin, missing_point, origin] 0
               {1..<length [origin, missing_point, origin]} order"
    by blast+
  have len: "length [origin, missing_point, origin] = 3" by simp
  from perm ex two show ?thesis
    unfolding example_route len by simp
qed

subsection \<open>Arguments out of range and empty routes\<close>

text \<open>
  Claim C9, as stated, fails in its first part: geolocation.ts checks no range and throws
  nowhere. The latitude 95 is out of range, and for the point (95, 0) and itself
  \<open>calculateDistance\<close> returns 0 and \<open>isWithinRadius\<close> with the radius 1 returns true.
\<close>

theorem geo_validation_counterexample:
  "\<not> validCoordinates (Num 95) (Num 0)
   \<and> calculateDistance example_libm (Num 95) (Num 0) (Num 95) (Num 0) = Num 0
   \<and> isWithinRadius example_libm (Num 95) (Num 0) (Num 95) (Num 0) (Num 1)"
proof -
  have "calculateDistance example_libm (Num 95) (Num 0) (Num 95) (Num 0) = Num 0"
    by (rule distance_self) simp
  then show ?thesis by (simp add: isWithinRadius_def validCoordinates_def)
qed

text \<open>
  Claim C9, amended. A call of \<open>calculateDistance\<close> or \<open>isWithinRadius\<close> with a latitude
  outside [-90, 90] or a longitude outside [-180, 180] does not fail with a
  ValidationError: the range is not checked. For every point with finite coordinates, in
  range or not, and every library, the distance of the point to itself is 0 and the point
  is within a radius of itself exactly when 0 <= radius. The empty list passed to
  \<open>calculateOptimalRoute\<close> returns the empty list and passed to \<open>calculateRouteDistance\<close>
  returns 0, not an error.
\<close>

theorem geo_total_and_empty_routes:
  "(\<bar>lat\<bar> < 2 ^ 1024 \<longrightarrow>
      calculateDistance L (Num lat) (Num lon) (Num lat) (Num lon) = Num 0
      \<and> isWithinRadius L (Num lat) (Num lon) (Num lat) (Num lon) radius
          = js_le (Num 0) radius)
   \<and> calculateOptimalRoute L [] = []
   \<and> calculateRouteDistance L [] = Num 0"
proof (intro conjI impI)
  assume "\<bar>lat\<bar> < 2 ^ 1024"
  then have d: "calculateDistance L (Num lat) (Num lon) (Num lat) (Num lon) = Num 0"
    by (rule distance_self)
  then show "calculateDistance L (Num lat) (Num lon) (Num lat) (Num lon) = Num 0" .
  from d show "isWithinRadius L (Num lat) (Num lon) (Num lat) (Num lon) radius
                 = js_le (Num 0) radius"
    by (simp add: isWithinRadius_def)
next
  show "calculateOptimalRoute L [] = []" by (simp add: calculateOptimalRoute_def)
next
  show "calculateRouteDistance L [] = Num 0"
    by (simp add: calculateRouteDistance_def calculateRouteDistance_loop.simps)
qed

theorem geo_total_and_empty_routes_witness:
  "\<not> validCoordinates (Num 95) (Num 200)
   \<and> calculateDistance example_libm (Num 95) (Num 200) (Num 95) (Num 200) = Num 0
   \<and> isWithinRadius example_libm (Num 95) (Num 200) (Num 95) (Num 200) (Num 1)
   \<and> \<not> isWithinRadius example_libm (Num 95) (Num 200) (Num 95) (Num 200) (Num (- 1))
   \<and> calculateOptimalRoute example_libm [] = []
   \<and> calculateRouteDistance example_libm [] = Num 0"
proof -
  have f: "\<bar>95 :: real\<bar> < 2 ^ 1024" by simp
  from geo_total_and_empty_routes [of 95 example_libm 200 "Num 1"] f
  have a: "calculateDistance example_libm (Num 95) (Num 200) (Num 95) (Num 200) = Num 0"
    and b: "isWithinRadius example_libm (Num 95) (Num 200) (Num 95) (Num 200) (Num 1)
              = js_le (Num 0) (Num 1)"
    and c: "calculateOptimalRoute example_libm [] = []"
    and d: "calculateRouteDistance example_libm [] = Num 0"
    by blast+
  from geo_total_and_empty_routes [of 95 example_libm 200 "Num (- 1)"] f
  have e: "isWithinRadius example_libm (Num 95) (Num 200) (Num 95) (Num 200) (Num (- 1))
              = js_le (Num 0) (Num (- 1))"
    by blast
  from a b c d e show ?thesis by (simp add: validCoordinates_def)
qed

section \<open>Properties of the seller reviews\<close>





end
